theory Spec2Isabelle
  imports Main
begin

section \<open>Python values, exceptions and the HTTP transport\<close>

text \<open>
  The module \<open>steam_api.py\<close> defines one class, \<open>SteamAPI\<close>, with the methods
  \<open>get_steam_id\<close>, \<open>get_app_list\<close> and \<open>find_app_id\<close>. All three work on what
  \<open>response.json()\<close> returns, so the values of the model are the Python values a JSON
  document parses to: \<open>None\<close>, booleans, integers, strings, lists and dicts. A dict is an
  association list whose first binding of a key is the dict's value for it. A \<open>str\<close> is
  given by its UTF-8 encoding, a list of bytes: two strings are equal, or empty, exactly
  when their encodings are, and the keys the code uses are ASCII. JSON numbers with a
  fraction are not represented.
\<close>

datatype json =
    JNull
  | JBool bool
  | JInt int
  | JStr string
  | JList "json list"
  | JObj "(string \<times> json) list"

text \<open>
  The exceptions that the three methods can meet. \<open>RequestException\<close> stands for
  \<open>requests.RequestException\<close> and all its subclasses (connection errors, timeouts, the
  \<open>HTTPError\<close> of \<open>raise_for_status\<close>, the \<open>JSONDecodeError\<close> of \<open>requests\<close>); it is
  the only one the methods catch. \<open>ValueError\<close> stands for what \<open>response.json()\<close> may
  raise that is not a \<open>RequestException\<close>.
\<close>

datatype exn = RequestException | KeyError | TypeError | AttributeError | ValueError

text \<open>Python's truth value of an object, as used by \<open>if x:\<close> and \<open>not x\<close>.\<close>

fun truthy :: "json \<Rightarrow> bool" where
  "truthy JNull = False"
| "truthy (JBool b) = b"
| "truthy (JInt i) = (i \<noteq> 0)"
| "truthy (JStr s) = (s \<noteq> [])"
| "truthy (JList xs) = (xs \<noteq> [])"
| "truthy (JObj kvs) = (kvs \<noteq> [])"

text \<open>
  \<open>x[key]\<close> with a string key: a dict gives the value or raises \<open>KeyError\<close>; every
  other value raises \<open>TypeError\<close> (a list or a string wants an integer index, the rest
  are not subscriptable).
\<close>

fun subscript :: "json \<Rightarrow> string \<Rightarrow> exn + json" where
  "subscript (JObj kvs) key =
     (case map_of kvs key of None \<Rightarrow> Inl KeyError | Some v \<Rightarrow> Inr v)"
| "subscript _ key = Inl TypeError"

text \<open>
  \<open>x.get(key)\<close>: a dict gives the value or \<open>None\<close>; no other value has a method
  \<open>get\<close>, so the attribute lookup raises \<open>AttributeError\<close>.
\<close>

fun get_method :: "json \<Rightarrow> string \<Rightarrow> exn + json" where
  "get_method (JObj kvs) key =
     (case map_of kvs key of None \<Rightarrow> Inr JNull | Some v \<Rightarrow> Inr v)"
| "get_method _ key = Inl AttributeError"

text \<open>
  \<open>x.lower()\<close>: only a string has the method. \<open>str.lower\<close> belongs to Python, not to
  this module, and follows the Unicode case tables: it is a parameter \<open>lower\<close> of the
  model, a function on strings, and the methods below hold for whatever it is.
\<close>

fun lower_method :: "(string \<Rightarrow> string) \<Rightarrow> json \<Rightarrow> exn + string" where
  "lower_method lower (JStr s) = Inr (lower s)"
| "lower_method lower _ = Inl AttributeError"

text \<open>
  The characters of a string, each as a string of its own: in UTF-8 a character is one
  byte that is not a continuation byte (\<open>0x80\<close> to \<open>0xBF\<close>), followed by its
  continuation bytes.
\<close>

definition is_continuation :: "char \<Rightarrow> bool" where
  "is_continuation c = (128 \<le> (of_char c :: nat) \<and> (of_char c :: nat) < 192)"

function utf8_chars :: "string \<Rightarrow> string list" where
  "utf8_chars [] = []"
| "utf8_chars (c # cs) =
     (c # takeWhile is_continuation cs) # utf8_chars (dropWhile is_continuation cs)"
  by pat_completeness auto
termination
  by (relation "measure length") (simp_all add: le_imp_less_Suc length_dropWhile_le)

text \<open>
  \<open>for app in x\<close>: a list yields its elements, a dict its keys, a string its
  characters as one-character strings; \<open>None\<close>, booleans and integers are not iterable.
\<close>

fun iterate :: "json \<Rightarrow> exn + json list" where
  "iterate (JList xs) = Inr xs"
| "iterate (JObj kvs) = Inr (map JStr (remdups (map fst kvs)))"
| "iterate (JStr s) = Inr (map JStr (utf8_chars s))"
| "iterate _ = Inl TypeError"

text \<open>
  What one HTTP GET does: \<open>requests.get\<close> raises (\<open>NetworkError\<close>), or there is a
  response with a status code and with what \<open>response.json()\<close> does on its body: it
  returns the parsed value, or it raises. The transport is an external collaborator: it is
  a function of the URL and of the number of requests issued before this one, so that it
  may answer differently each time.
\<close>

datatype http_result = NetworkError | Response nat "exn + json"

type_synonym transport = "string \<Rightarrow> nat \<Rightarrow> http_result"

text \<open>The arguments of the logging calls, with the level of each.\<close>

datatype level = INFO | WARNING | ERROR

datatype log_msg =
    SteamIdRetrieved string json
  | SteamIdNotFound string json
  | SteamIdError string
  | AppListRetrieved
  | AppListError
  | AppIdFound json json
  | AppIdNotFound json

section \<open>The class SteamAPI\<close>

text \<open>
  The instance has the fields \<open>api_key\<close> and \<open>app_list_cache\<close>. The state also carries
  what the methods do to the world: the URLs of the GET requests issued so far, in order,
  and the log records written so far.
\<close>

record state =
  api_key :: string
  app_list_cache :: json
  sent :: "string list"
  logged :: "(level \<times> log_msg) list"

definition BASE_URL :: string where
  "BASE_URL = ''http://api.steampowered.com''"

definition APP_LIST_URL :: string where
  "APP_LIST_URL = ''https://api.steampowered.com/ISteamApps/GetAppList/v2/''"

text \<open>\<open>__init__\<close>: the cache starts as \<open>None\<close>; nothing was sent or logged.\<close>

definition init :: "string \<Rightarrow> state" where
  "init key = \<lparr>api_key = key, app_list_cache = JNull, sent = [], logged = []\<rparr>"

definition log_to :: "level \<Rightarrow> log_msg \<Rightarrow> state \<Rightarrow> state" where
  "log_to l m s = s\<lparr>logged := logged s @ [(l, m)]\<rparr>"

text \<open>
  The three lines \<open>response = requests.get(url)\<close>, \<open>response.raise_for_status()\<close>,
  \<open>data = response.json()\<close> that both fetching methods start with. The request is
  recorded whether it succeeds or not. \<open>raise_for_status\<close> raises for the status codes
  400 to 599 and for no other; \<open>response.json()\<close> is called after it and may raise too.
\<close>

definition raise_for_status :: "nat \<Rightarrow> bool" where
  "raise_for_status status = (400 \<le> status \<and> status < 600)"

definition request_json :: "transport \<Rightarrow> string \<Rightarrow> state \<Rightarrow> (exn + json) \<times> state" where
  "request_json tr url s =
     (let s' = s\<lparr>sent := sent s @ [url]\<rparr> in
      case tr url (length (sent s)) of
        NetworkError \<Rightarrow> (Inl RequestException, s')
      | Response status parsed \<Rightarrow>
          if raise_for_status status then (Inl RequestException, s')
          else (case parsed of Inl e \<Rightarrow> (Inl e, s') | Inr data \<Rightarrow> (Inr data, s')))"

text \<open>
  \<open>get_steam_id\<close>. The \<open>except\<close> clause catches \<open>RequestException\<close> only; an exception
  of another class leaves the method.
\<close>

definition steam_id_url :: "string \<Rightarrow> string \<Rightarrow> string" where
  "steam_id_url key username =
     BASE_URL @ ''/ISteamUser/ResolveVanityURL/v0001/?key='' @ key @ ''&vanityurl='' @ username"

definition get_steam_id :: "transport \<Rightarrow> state \<Rightarrow> string \<Rightarrow> (exn + json) \<times> state" where
  "get_steam_id tr s username =
     (case request_json tr (steam_id_url (api_key s) username) s of
        (Inl e, s1) \<Rightarrow>
          (if e = RequestException then (Inr JNull, log_to ERROR (SteamIdError username) s1)
           else (Inl e, s1))
      | (Inr data, s1) \<Rightarrow>
          (case subscript data ''response'' of
             Inl e \<Rightarrow> (Inl e, s1)
           | Inr r \<Rightarrow>
               (case get_method r ''steamid'' of
                  Inl e \<Rightarrow> (Inl e, s1)
                | Inr steam_id \<Rightarrow>
                    if truthy steam_id
                    then (Inr steam_id, log_to INFO (SteamIdRetrieved username steam_id) s1)
                    else (Inr JNull, log_to WARNING (SteamIdNotFound username data) s1))))"

text \<open>
  \<open>get_app_list\<close>. The cache is assigned only after both subscripts have succeeded.
\<close>

definition get_app_list :: "transport \<Rightarrow> state \<Rightarrow> (exn + json) \<times> state" where
  "get_app_list tr s =
     (if \<not> truthy (app_list_cache s) then
        (case request_json tr APP_LIST_URL s of
           (Inl e, s1) \<Rightarrow>
             (if e = RequestException then (Inr (JList []), log_to ERROR AppListError s1)
              else (Inl e, s1))
         | (Inr data, s1) \<Rightarrow>
             (case subscript data ''applist'' of
                Inl e \<Rightarrow> (Inl e, s1)
              | Inr al \<Rightarrow>
                  (case subscript al ''apps'' of
                     Inl e \<Rightarrow> (Inl e, s1)
                   | Inr apps \<Rightarrow>
                       (Inr apps, log_to INFO AppListRetrieved (s1\<lparr>app_list_cache := apps\<rparr>)))))
      else (Inr (app_list_cache s), s))"

text \<open>
  The dict comprehension \<open>{app['name'].lower(): app['appid'] for app in apps}\<close>: the
  key is evaluated before the value, and a later entry overwrites an earlier one with the
  same key.
\<close>

fun build_app_dict ::
  "(string \<Rightarrow> string) \<Rightarrow> json list \<Rightarrow> (string \<rightharpoonup> json) \<Rightarrow> exn + (string \<rightharpoonup> json)" where
  "build_app_dict lower [] d = Inr d"
| "build_app_dict lower (app # rest) d =
     (case subscript app ''name'' of
        Inl e \<Rightarrow> Inl e
      | Inr n \<Rightarrow>
          (case lower_method lower n of
             Inl e \<Rightarrow> Inl e
           | Inr k \<Rightarrow>
               (case subscript app ''appid'' of
                  Inl e \<Rightarrow> Inl e
                | Inr v \<Rightarrow> build_app_dict lower rest (d(k \<mapsto> v)))))"

definition app_dict_of :: "(string \<Rightarrow> string) \<Rightarrow> json \<Rightarrow> exn + (string \<rightharpoonup> json)" where
  "app_dict_of lower apps =
     (case iterate apps of Inl e \<Rightarrow> Inl e | Inr xs \<Rightarrow> build_app_dict lower xs Map.empty)"

text \<open>\<open>d.get(key)\<close> on the dict built above.\<close>

definition dict_get :: "(string \<rightharpoonup> json) \<Rightarrow> string \<Rightarrow> json" where
  "dict_get d k = (case d k of None \<Rightarrow> JNull | Some v \<Rightarrow> v)"

text \<open>
  \<open>find_app_id\<close>. It has no \<open>try\<close>: whatever \<open>get_app_list\<close>, the comprehension or
  \<open>game_name.lower()\<close> raises leaves the method. The value returned is the result of the
  lookup; its truth value only chooses the log record.
\<close>

definition find_app_id ::
  "(string \<Rightarrow> string) \<Rightarrow> transport \<Rightarrow> state \<Rightarrow> json \<Rightarrow> (exn + json) \<times> state" where
  "find_app_id lower tr s game_name =
     (if \<not> truthy game_name \<or> game_name = JStr [] then (Inr JNull, s)
      else
        (case get_app_list tr s of
           (Inl e, s1) \<Rightarrow> (Inl e, s1)
         | (Inr apps, s1) \<Rightarrow>
             (case app_dict_of lower apps of
                Inl e \<Rightarrow> (Inl e, s1)
              | Inr app_dict \<Rightarrow>
                  (case lower_method lower game_name of
                     Inl e \<Rightarrow> (Inl e, s1)
                   | Inr k \<Rightarrow>
                       (let app_id = dict_get app_dict k in
                        if truthy app_id
                        then (Inr app_id, log_to INFO (AppIdFound game_name app_id) s1)
                        else (Inr app_id, log_to WARNING (AppIdNotFound game_name) s1))))))"

section \<open>Notions used to state the properties\<close>

text \<open>
  What \<open>str.lower\<close> does on an ASCII string: the letters A to Z move to a to z and
  every other character stays. A lowering function is one that does this on every ASCII
  string; on other strings it is free.
\<close>

definition ascii_lower_char :: "char \<Rightarrow> char" where
  "ascii_lower_char c =
     (case map_of (zip ''ABCDEFGHIJKLMNOPQRSTUVWXYZ'' ''abcdefghijklmnopqrstuvwxyz'') c of
        None \<Rightarrow> c
      | Some l \<Rightarrow> l)"

definition ascii_lower :: "string \<Rightarrow> string" where
  "ascii_lower s = map ascii_lower_char s"

definition is_ascii :: "string \<Rightarrow> bool" where
  "is_ascii s = list_all (\<lambda>c. (of_char c :: nat) < 128) s"

text \<open>
  A transport failure is a network error or an error status: \<open>requests.get\<close> raises, or
  \<open>raise_for_status\<close> does. A caught failure is any way in which the three lines of the
  request raise a \<open>RequestException\<close>: a transport failure, or \<open>response.json()\<close>
  raising one, as \<open>requests\<close> does for a body that is not JSON.
\<close>

definition transport_failure :: "http_result \<Rightarrow> bool" where
  "transport_failure r =
     (case r of NetworkError \<Rightarrow> True | Response status parsed \<Rightarrow> raise_for_status status)"

definition caught_failure :: "http_result \<Rightarrow> bool" where
  "caught_failure r =
     (case r of
        NetworkError \<Rightarrow> True
      | Response status parsed \<Rightarrow> raise_for_status status \<or> parsed = Inl RequestException)"

text \<open>
  An entry of the app list as the Steam endpoint documents it,
  \<open>{"appid": integer, "name": string}\<close>, and the body \<open>{"applist": {"apps": ...}}\<close>
  around the list.
\<close>

record app =
  appid :: int
  name :: string

definition app_json :: "app \<Rightarrow> json" where
  "app_json a = JObj [(''appid'', JInt (appid a)), (''name'', JStr (name a))]"

definition app_list_body :: "json \<Rightarrow> json" where
  "app_list_body apps = JObj [(''applist'', JObj [(''apps'', apps)])]"

text \<open>The pairs of lowercased name and app id of a list of entries, in the list's order.\<close>

definition name_table :: "(string \<Rightarrow> string) \<Rightarrow> app list \<Rightarrow> (string \<times> json) list" where
  "name_table lower apps = map (\<lambda>a. (lower (name a), JInt (appid a))) apps"

text \<open>Calling \<open>get_app_list\<close> \<open>n\<close> times in a row, collecting what each call returns.\<close>

fun get_app_list_times :: "transport \<Rightarrow> nat \<Rightarrow> state \<Rightarrow> (exn + json) list \<times> state" where
  "get_app_list_times tr 0 s = ([], s)"
| "get_app_list_times tr (Suc n) s =
     (case get_app_list tr s of
        (r, s1) \<Rightarrow> (case get_app_list_times tr n s1 of (rs, s2) \<Rightarrow> (r # rs, s2)))"

text \<open>
  A fetch that makes \<open>get_app_list\<close> return the empty list: a caught failure, or a
  successful response whose list of apps is empty.
\<close>

definition empty_fetch :: "http_result \<Rightarrow> bool" where
  "empty_fetch r =
     (case r of
        NetworkError \<Rightarrow> True
      | Response status parsed \<Rightarrow>
          raise_for_status status \<or> parsed = Inl RequestException \<or>
          parsed = Inr (app_list_body (JList [])))"

text \<open>
  The shapes of a parsed body that the methods rely on. For \<open>get_steam_id\<close>: the body is
  a dict whose \<open>response\<close> is a dict. For \<open>get_app_list\<close>: the body is a dict whose
  \<open>applist\<close> is a dict with a key \<open>apps\<close>. For \<open>find_app_id\<close>, moreover: the apps are
  a list of dicts, each with a string under \<open>name\<close> and some value under \<open>appid\<close>. A
  reply is as expected when it is a caught failure or a successful response whose body
  parses to a value of that shape.
\<close>

fun is_dict :: "json \<Rightarrow> bool" where
  "is_dict (JObj kvs) = True"
| "is_dict _ = False"

fun is_str :: "json \<Rightarrow> bool" where
  "is_str (JStr s) = True"
| "is_str _ = False"

definition has_field :: "(json \<Rightarrow> bool) \<Rightarrow> json \<Rightarrow> string \<Rightarrow> bool" where
  "has_field P x key = (case subscript x key of Inl e \<Rightarrow> False | Inr v \<Rightarrow> P v)"

definition reply_ok :: "(json \<Rightarrow> bool) \<Rightarrow> http_result \<Rightarrow> bool" where
  "reply_ok shape r =
     (case r of
        NetworkError \<Rightarrow> True
      | Response status parsed \<Rightarrow>
          raise_for_status status \<or>
          (case parsed of Inl e \<Rightarrow> e = RequestException | Inr body \<Rightarrow> shape body))"

definition steam_id_shape :: "json \<Rightarrow> bool" where
  "steam_id_shape body = has_field is_dict body ''response''"

definition no_steam_id :: "json \<Rightarrow> bool" where
  "no_steam_id body =
     has_field (\<lambda>r. is_dict r \<and> get_method r ''steamid'' = Inr JNull) body ''response''"

definition app_list_shape :: "json \<Rightarrow> bool" where
  "app_list_shape body = has_field (\<lambda>al. has_field (\<lambda>apps. True) al ''apps'') body ''applist''"

definition app_entry_ok :: "json \<Rightarrow> bool" where
  "app_entry_ok x = (has_field is_str x ''name'' \<and> has_field (\<lambda>v. True) x ''appid'')"

fun apps_ok :: "json \<Rightarrow> bool" where
  "apps_ok (JList xs) = list_all app_entry_ok xs"
| "apps_ok _ = False"

definition app_entries_shape :: "json \<Rightarrow> bool" where
  "app_entries_shape body = has_field (\<lambda>al. has_field apps_ok al ''apps'') body ''applist''"

text \<open>
  The state of a client created with \<open>key\<close> after one successful fetch that stored
  \<open>apps\<close>, and a transport that answers every request with the app list \<open>apps\<close>.
\<close>

definition fetched :: "string \<Rightarrow> json \<Rightarrow> state" where
  "fetched key apps =
     \<lparr>api_key = key, app_list_cache = apps, sent = [APP_LIST_URL],
      logged = [(INFO, AppListRetrieved)]\<rparr>"

definition serving :: "app list \<Rightarrow> transport" where
  "serving apps url n = Response 200 (Inr (app_list_body (JList (map app_json apps))))"

section \<open>Auxiliary facts\<close>

lemma request_json_failure:
  "caught_failure (tr url (length (sent s))) \<Longrightarrow>
   request_json tr url s = (Inl RequestException, s\<lparr>sent := sent s @ [url]\<rparr>)"
  by (cases "tr url (length (sent s))")
     (auto simp: request_json_def caught_failure_def Let_def)

lemma transport_failure_caught: "transport_failure r \<Longrightarrow> caught_failure r"
  by (cases r) (simp_all add: transport_failure_def caught_failure_def)

lemma request_json_success:
  "tr url (length (sent s)) = Response status (Inr body) \<Longrightarrow> \<not> raise_for_status status \<Longrightarrow>
   request_json tr url s = (Inr body, s\<lparr>sent := sent s @ [url]\<rparr>)"
  by (simp add: request_json_def Let_def)

lemma request_json_state:
  "snd (request_json tr url s) = s\<lparr>sent := sent s @ [url]\<rparr>"
  by (cases "tr url (length (sent s))")
     (simp_all add: request_json_def Let_def split: sum.splits)

lemma reply_ok_cases:
  assumes "reply_ok shape r"
  obtains "caught_failure r"
  | status body where "r = Response status (Inr body)" "\<not> raise_for_status status" "shape body"
  using assms
  by (cases r) (auto simp: reply_ok_def caught_failure_def split: sum.splits)

lemma get_app_list_cached:
  "truthy (app_list_cache s) \<Longrightarrow> get_app_list tr s = (Inr (app_list_cache s), s)"
  by (simp add: get_app_list_def)

lemma get_app_list_failure:
  "\<not> truthy (app_list_cache s) \<Longrightarrow> caught_failure (tr APP_LIST_URL (length (sent s))) \<Longrightarrow>
   get_app_list tr s =
     (Inr (JList []), log_to ERROR AppListError (s\<lparr>sent := sent s @ [APP_LIST_URL]\<rparr>))"
  by (simp add: get_app_list_def request_json_failure)

lemma get_app_list_fetch:
  "\<not> truthy (app_list_cache s) \<Longrightarrow>
   tr APP_LIST_URL (length (sent s)) = Response status (Inr body) \<Longrightarrow>
   \<not> raise_for_status status \<Longrightarrow>
   subscript body ''applist'' = Inr al \<Longrightarrow> subscript al ''apps'' = Inr apps \<Longrightarrow>
   get_app_list tr s =
     (Inr apps, log_to INFO AppListRetrieved
        (s\<lparr>sent := sent s @ [APP_LIST_URL], app_list_cache := apps\<rparr>))"
  by (simp add: get_app_list_def request_json_success)

lemma get_app_list_fetch_body:
  "\<not> truthy (app_list_cache s) \<Longrightarrow>
   tr APP_LIST_URL (length (sent s)) = Response status (Inr (app_list_body apps)) \<Longrightarrow>
   \<not> raise_for_status status \<Longrightarrow>
   get_app_list tr s =
     (Inr apps, log_to INFO AppListRetrieved
        (s\<lparr>sent := sent s @ [APP_LIST_URL], app_list_cache := apps\<rparr>))"
  by (simp add: get_app_list_def request_json_success app_list_body_def)

lemma get_app_list_init:
  "tr APP_LIST_URL 0 = Response 200 (Inr (app_list_body apps)) \<Longrightarrow>
   get_app_list tr (init key) = (Inr apps, fetched key apps)"
  using get_app_list_fetch_body [where tr = tr and s = "init key" and status = 200 and apps = apps]
  by (simp add: init_def raise_for_status_def log_to_def fetched_def)

lemma get_app_list_serving:
  "get_app_list (serving apps) (init key) =
     (Inr (JList (map app_json apps)), fetched key (JList (map app_json apps)))"
  by (rule get_app_list_init) (simp add: serving_def)

lemma get_app_list_empty_fetch:
  assumes "\<not> truthy (app_list_cache s)"
    and "empty_fetch (tr APP_LIST_URL (length (sent s)))"
  shows "fst (get_app_list tr s) = Inr (JList []) \<and>
         \<not> truthy (app_list_cache (snd (get_app_list tr s))) \<and>
         sent (snd (get_app_list tr s)) = sent s @ [APP_LIST_URL]"
proof (cases "caught_failure (tr APP_LIST_URL (length (sent s)))")
  case True
  with assms(1) show ?thesis
    by (simp add: get_app_list_failure log_to_def)
next
  case False
  with assms(2) obtain status where
    r: "tr APP_LIST_URL (length (sent s)) = Response status (Inr (app_list_body (JList [])))"
    and ok: "\<not> raise_for_status status"
    by (cases "tr APP_LIST_URL (length (sent s))")
       (auto simp: empty_fetch_def caught_failure_def)
  show ?thesis
    using get_app_list_fetch_body [where tr = tr and s = s, OF assms(1) r ok]
    by (simp add: log_to_def)
qed

lemma get_app_list_sent:
  "\<not> truthy (app_list_cache s) \<Longrightarrow> sent (snd (get_app_list tr s)) = sent s @ [APP_LIST_URL]"
  using request_json_state [of tr APP_LIST_URL s]
  by (cases "request_json tr APP_LIST_URL s")
     (auto simp: get_app_list_def log_to_def split: sum.splits)

lemma get_app_list_times_cached:
  "truthy (app_list_cache s) \<Longrightarrow>
   get_app_list_times tr n s = (replicate n (Inr (app_list_cache s)), s)"
  by (induction n) (simp_all add: get_app_list_cached replicate_append_same)

lemma get_app_list_times_empty:
  "\<not> truthy (app_list_cache s) \<Longrightarrow>
   (\<And>i. i < n \<Longrightarrow> empty_fetch (tr APP_LIST_URL (length (sent s) + i))) \<Longrightarrow>
   fst (get_app_list_times tr n s) = replicate n (Inr (JList [])) \<and>
   \<not> truthy (app_list_cache (snd (get_app_list_times tr n s))) \<and>
   sent (snd (get_app_list_times tr n s)) = sent s @ replicate n APP_LIST_URL"
proof (induction n arbitrary: s)
  case 0
  then show ?case by simp
next
  case (Suc n)
  obtain r s1 where g: "get_app_list tr s = (r, s1)"
    by (cases "get_app_list tr s")
  have "empty_fetch (tr APP_LIST_URL (length (sent s)))"
    using Suc.prems(2) [of 0] by simp
  from get_app_list_empty_fetch [where tr = tr and s = s, OF Suc.prems(1) this] g
  have r: "r = Inr (JList [])" and c: "\<not> truthy (app_list_cache s1)"
    and t: "sent s1 = sent s @ [APP_LIST_URL]"
    by simp_all
  have "\<And>i. i < n \<Longrightarrow> empty_fetch (tr APP_LIST_URL (length (sent s1) + i))"
    using Suc.prems(2) t by (metis Suc_less_eq add_Suc_shift length_append_singleton)
  from Suc.IH [OF c this] g r t show ?case
    by (simp add: split_beta replicate_append_same)
qed

lemma build_app_dict_entries:
  "build_app_dict lower (map app_json apps) d =
     Inr (d ++ map_of (rev (name_table lower apps)))"
proof (induction apps arbitrary: d)
  case Nil
  then show ?case by (simp add: name_table_def)
next
  case (Cons a apps)
  have "build_app_dict lower (map app_json (a # apps)) d =
        build_app_dict lower (map app_json apps) (d(lower (name a) \<mapsto> JInt (appid a)))"
    by (simp add: app_json_def)
  also have "\<dots> =
      Inr (d(lower (name a) \<mapsto> JInt (appid a)) ++ map_of (rev (name_table lower apps)))"
    by (rule Cons.IH)
  also have "d(lower (name a) \<mapsto> JInt (appid a)) ++ map_of (rev (name_table lower apps)) =
             d ++ map_of (rev (name_table lower (a # apps)))"
    by (simp add: name_table_def map_add_def fun_eq_iff split: option.splits)
  finally show ?case .
qed

lemma app_dict_of_entries:
  "app_dict_of lower (JList (map app_json apps)) = Inr (map_of (rev (name_table lower apps)))"
  by (simp add: app_dict_of_def build_app_dict_entries)

lemma map_of_rev_last:
  "k \<notin> fst ` set ys \<Longrightarrow> map_of (rev (xs @ (k, v) # ys)) k = Some v"
  by (simp add: map_add_def map_of_eq_None_iff[THEN iffD2] split: option.splits)

lemma name_table_last:
  assumes "\<forall>b \<in> set ys. lower (name b) \<noteq> lower (name a)"
  shows "map_of (rev (name_table lower (xs @ a # ys))) (lower (name a)) = Some (JInt (appid a))"
proof -
  have "lower (name a) \<notin> fst ` set (name_table lower ys)"
    using assms by (auto simp: name_table_def)
  then have "map_of (rev (name_table lower xs @ (lower (name a), JInt (appid a)) #
                 name_table lower ys)) (lower (name a)) = Some (JInt (appid a))"
    by (rule map_of_rev_last)
  then show ?thesis by (simp add: name_table_def)
qed

lemma name_table_lookup:
  "(map_of (rev (name_table lower apps)) k = None \<and> (\<forall>a \<in> set apps. lower (name a) \<noteq> k)) \<or>
   (\<exists>a \<in> set apps. lower (name a) = k \<and>
      map_of (rev (name_table lower apps)) k = Some (JInt (appid a)))"
proof (cases "map_of (rev (name_table lower apps)) k")
  case None
  then have "k \<notin> fst ` set (name_table lower apps)"
    by (simp add: map_of_eq_None_iff)
  then have "\<forall>a \<in> set apps. lower (name a) \<noteq> k"
    by (force simp: name_table_def)
  with None show ?thesis by simp
next
  case (Some v)
  then have "(k, v) \<in> set (name_table lower apps)"
    using map_of_SomeD by fastforce
  then obtain a where "a \<in> set apps" "lower (name a) = k" "v = JInt (appid a)"
    by (auto simp: name_table_def)
  with Some show ?thesis by auto
qed

lemma build_app_dict_ok:
  "list_all app_entry_ok xs \<Longrightarrow> \<exists>d'. build_app_dict lower xs d = Inr d'"
proof (induction xs arbitrary: d)
  case Nil
  then show ?case by simp
next
  case (Cons x xs)
  from Cons.prems obtain n v where
    "subscript x ''name'' = Inr (JStr n)" "subscript x ''appid'' = Inr v"
    by (auto simp: app_entry_ok_def has_field_def split: sum.splits elim: is_str.elims)
  with Cons show ?case by simp
qed

lemma app_dict_of_ok: "apps_ok apps \<Longrightarrow> \<exists>d. app_dict_of lower apps = Inr d"
  by (cases apps) (simp_all add: app_dict_of_def build_app_dict_ok)

lemma find_app_id_lookup:
  "g \<noteq> [] \<Longrightarrow> get_app_list tr s = (Inr apps, s1) \<Longrightarrow> app_dict_of lower apps = Inr d \<Longrightarrow>
   find_app_id lower tr s (JStr g) =
     (Inr (case d (lower g) of None \<Rightarrow> JNull | Some v \<Rightarrow> v),
      if truthy (case d (lower g) of None \<Rightarrow> JNull | Some v \<Rightarrow> v)
      then log_to INFO (AppIdFound (JStr g) (case d (lower g) of None \<Rightarrow> JNull | Some v \<Rightarrow> v)) s1
      else log_to WARNING (AppIdNotFound (JStr g)) s1)"
  by (simp add: find_app_id_def Let_def dict_get_def)

lemma find_app_id_cached:
  "truthy (app_list_cache s) \<Longrightarrow>
   sent (snd (find_app_id lower tr s g)) = sent s \<and>
   app_list_cache (snd (find_app_id lower tr s g)) = app_list_cache s"
  by (simp add: find_app_id_def get_app_list_cached log_to_def Let_def split: sum.splits)

lemma get_steam_id_failure:
  "caught_failure (tr (steam_id_url (api_key s) username) (length (sent s))) \<Longrightarrow>
   fst (get_steam_id tr s username) = Inr JNull"
  by (simp add: get_steam_id_def request_json_failure)

lemma get_steam_id_value:
  assumes "tr (steam_id_url (api_key s) username) (length (sent s)) = Response status (Inr body)"
    and "\<not> raise_for_status status"
    and "subscript body ''response'' = Inr r"
    and "get_method r ''steamid'' = Inr v"
  shows "fst (get_steam_id tr s username) = Inr (if truthy v then v else JNull)"
  using assms by (simp add: get_steam_id_def request_json_success)

lemma get_steam_id_total:
  assumes "reply_ok steam_id_shape (tr (steam_id_url (api_key s) username) (length (sent s)))"
  shows "\<exists>v. fst (get_steam_id tr s username) = Inr v"
  using assms
proof (cases rule: reply_ok_cases)
  case 1
  then show ?thesis by (simp add: get_steam_id_failure)
next
  case (2 status body)
  from 2(3) obtain kvs where "subscript body ''response'' = Inr (JObj kvs)"
    by (auto simp: steam_id_shape_def has_field_def split: sum.splits elim: is_dict.elims)
  moreover obtain v where "get_method (JObj kvs) ''steamid'' = Inr v"
    by (cases "map_of kvs ''steamid''") simp_all
  ultimately show ?thesis
    using get_steam_id_value [where tr = tr and s = s, OF 2(1) 2(2)] by blast
qed

lemma get_steam_id_absent:
  assumes "tr (steam_id_url (api_key s) username) (length (sent s)) = Response status (Inr body)"
    and "\<not> raise_for_status status"
    and "no_steam_id body"
  shows "fst (get_steam_id tr s username) = Inr JNull"
proof -
  from assms(3) obtain r where "subscript body ''response'' = Inr r"
    "get_method r ''steamid'' = Inr JNull"
    by (auto simp: no_steam_id_def has_field_def split: sum.splits)
  then show ?thesis
    using get_steam_id_value [where tr = tr and s = s, OF assms(1) assms(2)] by fastforce
qed

lemma get_app_list_total:
  assumes "truthy (app_list_cache s) \<or> reply_ok app_list_shape (tr APP_LIST_URL (length (sent s)))"
  shows "\<exists>v. fst (get_app_list tr s) = Inr v"
proof (cases "truthy (app_list_cache s)")
  case True
  then show ?thesis by (simp add: get_app_list_cached)
next
  case c: False
  with assms have "reply_ok app_list_shape (tr APP_LIST_URL (length (sent s)))"
    by simp
  then show ?thesis
  proof (cases rule: reply_ok_cases)
    case 1
    with c show ?thesis by (simp add: get_app_list_failure)
  next
    case (2 status body)
    from 2(3) obtain al apps where
      "subscript body ''applist'' = Inr al" "subscript al ''apps'' = Inr apps"
      by (auto simp: app_list_shape_def has_field_def split: sum.splits)
    with c 2 show ?thesis by (simp add: get_app_list_fetch)
  qed
qed

lemma get_app_list_apps_ok:
  assumes "if truthy (app_list_cache s) then apps_ok (app_list_cache s)
           else reply_ok app_entries_shape (tr APP_LIST_URL (length (sent s)))"
  shows "\<exists>apps s1. get_app_list tr s = (Inr apps, s1) \<and> apps_ok apps"
proof (cases "truthy (app_list_cache s)")
  case True
  with assms show ?thesis by (simp add: get_app_list_cached)
next
  case c: False
  with assms have "reply_ok app_entries_shape (tr APP_LIST_URL (length (sent s)))"
    by simp
  then show ?thesis
  proof (cases rule: reply_ok_cases)
    case 1
    with c show ?thesis by (simp add: get_app_list_failure)
  next
    case (2 status body)
    from 2(3) obtain al apps where
      "subscript body ''applist'' = Inr al" "subscript al ''apps'' = Inr apps" "apps_ok apps"
      by (auto simp: app_entries_shape_def has_field_def split: sum.splits)
    with c 2 show ?thesis by (simp add: get_app_list_fetch)
  qed
qed

lemma find_app_id_total:
  assumes "g = JNull \<or> is_str g"
    and "if truthy (app_list_cache s) then apps_ok (app_list_cache s)
         else reply_ok app_entries_shape (tr APP_LIST_URL (length (sent s)))"
  shows "\<exists>v. fst (find_app_id lower tr s g) = Inr v"
proof (cases "g = JNull \<or> g = JStr []")
  case True
  then show ?thesis by (auto simp: find_app_id_def)
next
  case False
  with assms(1) obtain name where g: "g = JStr name" "name \<noteq> []"
    by (cases g) auto
  from get_app_list_apps_ok [where tr = tr and s = s, OF assms(2)] obtain apps s1 where
    a: "get_app_list tr s = (Inr apps, s1)" "apps_ok apps"
    by blast
  from app_dict_of_ok [OF a(2)] obtain d where "app_dict_of lower apps = Inr d" ..
  with g a(1) show ?thesis
    by (simp add: find_app_id_lookup)
qed

lemma find_app_id_failure:
  assumes "is_str g" and "\<not> truthy (app_list_cache s)"
    and "caught_failure (tr APP_LIST_URL (length (sent s)))"
  shows "fst (find_app_id lower tr s g) = Inr JNull"
proof (cases "g = JStr []")
  case True
  then show ?thesis by (simp add: find_app_id_def)
next
  case False
  with assms(1) obtain name where g: "g = JStr name" "name \<noteq> []"
    by (cases g) auto
  have "app_dict_of lower (JList []) = Inr Map.empty"
    by (simp add: app_dict_of_def)
  with g get_app_list_failure [where tr = tr and s = s, OF assms(2) assms(3)] show ?thesis
    by (simp add: find_app_id_lookup)
qed

lemma find_app_id_entries:
  assumes "g \<noteq> []"
    and "get_app_list tr s = (Inr (JList (map app_json apps)), s1)"
  shows "fst (find_app_id lower tr s (JStr g)) =
           Inr (case map_of (rev (name_table lower apps)) (lower g) of
                  None \<Rightarrow> JNull | Some v \<Rightarrow> v)"
  using find_app_id_lookup [where lower = lower and tr = tr and s = s,
      OF assms app_dict_of_entries]
  by simp

section \<open>Resolving a user name: get_steam_id\<close>

text \<open>
  The claim C4 as written: whenever the request succeeds and the body holds
  \<open>response.steamid = "X"\<close>, \<open>get_steam_id\<close> returns \<open>"X"\<close>. It fails for the empty
  string: the test \<open>if steam_id:\<close> sends \<open>""\<close> to the branch that returns \<open>None\<close>.
\<close>

theorem get_steam_id_returns_steamid_counterexample:
  "fst (get_steam_id
         (\<lambda>url n. Response 200 (Inr (JObj [(''response'', JObj [(''steamid'', JStr '''')])])))
         (init ''key'') ''gabe'') \<noteq> Inr (JStr '''')"
  by (simp add: get_steam_id_def request_json_def raise_for_status_def init_def Let_def)

text \<open>
  C4 (amended): for every user name, if the HTTP request succeeds and the JSON response
  contains \<open>response.steamid = "X"\<close> with \<open>X\<close> a non-empty string, then
  \<open>get_steam_id\<close> returns the string \<open>"X"\<close>.
\<close>

theorem get_steam_id_returns_steamid:
  assumes "tr (steam_id_url (api_key s) username) (length (sent s)) = Response status (Inr body)"
    and "\<not> raise_for_status status"
    and "subscript body ''response'' = Inr r"
    and "get_method r ''steamid'' = Inr (JStr X)"
    and "X \<noteq> []"
  shows "fst (get_steam_id tr s username) = Inr (JStr X)"
  using assms by (simp add: get_steam_id_def request_json_success)

theorem get_steam_id_returns_steamid_witness:
  "fst (get_steam_id
         (\<lambda>url n. Response 200
            (Inr (JObj [(''response'',
               JObj [(''steamid'', JStr ''76561197960287930''), (''success'', JInt 1)])])))
         (init ''key'') ''gabe'') = Inr (JStr ''76561197960287930'')"
  by (rule get_steam_id_returns_steamid
       [where status = 200
          and r = "JObj [(''steamid'', JStr ''76561197960287930''), (''success'', JInt 1)]"
          and body = "JObj [(''response'',
                JObj [(''steamid'', JStr ''76561197960287930''), (''success'', JInt 1)])]"])
     (simp_all add: raise_for_status_def)

text \<open>
  C6: for every user name, if the HTTP request succeeds but the JSON response is
  \<open>{"response": {}}\<close>, with no \<open>steamid\<close> field, \<open>get_steam_id\<close> returns \<open>None\<close>
  and raises nothing.
\<close>

theorem get_steam_id_no_steamid:
  assumes "tr (steam_id_url (api_key s) username) (length (sent s)) =
             Response status (Inr (JObj [(''response'', JObj [])]))"
    and "\<not> raise_for_status status"
  shows "fst (get_steam_id tr s username) = Inr JNull"
  using assms by (simp add: get_steam_id_def request_json_success)

theorem get_steam_id_no_steamid_witness:
  "fst (get_steam_id (\<lambda>url n. Response 200 (Inr (JObj [(''response'', JObj [])])))
         (init ''key'') ''gabe'') = Inr JNull"
  by (rule get_steam_id_no_steamid [where status = 200]) (simp_all add: raise_for_status_def)

text \<open>
  C10: for every user name, if the HTTP request succeeds and the JSON response contains
  \<open>response.steamid\<close> equal to the empty string, \<open>get_steam_id\<close> returns \<open>None\<close>, as
  it does when the field is missing.
\<close>

theorem get_steam_id_empty_steamid:
  assumes "tr (steam_id_url (api_key s) username) (length (sent s)) = Response status (Inr body)"
    and "\<not> raise_for_status status"
    and "subscript body ''response'' = Inr r"
    and "get_method r ''steamid'' = Inr (JStr [])"
  shows "fst (get_steam_id tr s username) = Inr JNull"
  using assms by (simp add: get_steam_id_def request_json_success)

theorem get_steam_id_empty_steamid_witness:
  "fst (get_steam_id
         (\<lambda>url n. Response 200 (Inr (JObj [(''response'', JObj [(''steamid'', JStr '''')])])))
         (init ''key'') ''gabe'') = Inr JNull"
  by (rule get_steam_id_empty_steamid
       [where status = 200 and r = "JObj [(''steamid'', JStr '''')]"
          and body = "JObj [(''response'', JObj [(''steamid'', JStr '''')])]"])
     (simp_all add: raise_for_status_def)

section \<open>Fetching the app list: get_app_list\<close>

text \<open>
  The claim C5 as written counts every status outside 200 to 299 as a failed fetch. It
  fails for a status such as 300: \<open>raise_for_status\<close> raises for 400 to 599 only, so a
  response with status 300 and a well-formed body is fetched like any other: its list is
  returned and stored in the cache.
\<close>

theorem get_app_list_transport_failure_counterexample:
  "fst (get_app_list
         (\<lambda>url n. Response 300 (Inr (app_list_body (JList [JObj [(''appid'', JInt 10),
            (''name'', JStr ''Counter-Strike'')]]))))
         (init ''key'')) \<noteq> Inr (JList []) \<and>
   app_list_cache (snd (get_app_list
         (\<lambda>url n. Response 300 (Inr (app_list_body (JList [JObj [(''appid'', JInt 10),
            (''name'', JStr ''Counter-Strike'')]]))))
         (init ''key''))) \<noteq> app_list_cache (init ''key'')"
  by (simp add: get_app_list_def request_json_def raise_for_status_def init_def Let_def
      app_list_body_def log_to_def)

text \<open>
  C5 (amended): whenever the fetch of the app list fails at the transport level (a network
  error or a status from 400 to 599), \<open>get_app_list\<close> logs the error, returns the empty
  list and leaves the cache as it was, unset, so that the next call to \<open>get_app_list\<close>
  sends the request again, whatever the transport then answers.
\<close>

theorem get_app_list_transport_failure:
  assumes "\<not> truthy (app_list_cache s)"
    and "transport_failure (tr APP_LIST_URL (length (sent s)))"
  shows "fst (get_app_list tr s) = Inr (JList []) \<and>
         logged (snd (get_app_list tr s)) = logged s @ [(ERROR, AppListError)] \<and>
         app_list_cache (snd (get_app_list tr s)) = app_list_cache s \<and>
         sent (snd (get_app_list tr s)) = sent s @ [APP_LIST_URL] \<and>
         sent (snd (get_app_list tr' (snd (get_app_list tr s)))) =
           sent s @ [APP_LIST_URL, APP_LIST_URL]"
proof -
  let ?s1 = "log_to ERROR AppListError (s\<lparr>sent := sent s @ [APP_LIST_URL]\<rparr>)"
  have "caught_failure (tr APP_LIST_URL (length (sent s)))"
    using assms(2) by (rule transport_failure_caught)
  with assms(1) have g: "get_app_list tr s = (Inr (JList []), ?s1)"
    by (rule get_app_list_failure)
  have "\<not> truthy (app_list_cache ?s1)"
    using assms(1) by (simp add: log_to_def)
  then have "sent (snd (get_app_list tr' ?s1)) = sent ?s1 @ [APP_LIST_URL]"
    by (rule get_app_list_sent)
  with g show ?thesis by (simp add: log_to_def)
qed

theorem get_app_list_transport_failure_witness:
  "fst (get_app_list (\<lambda>url n. Response 503 (Inr JNull)) (init ''key'')) = Inr (JList []) \<and>
   logged (snd (get_app_list (\<lambda>url n. Response 503 (Inr JNull)) (init ''key''))) =
     [(ERROR, AppListError)] \<and>
   app_list_cache (snd (get_app_list (\<lambda>url n. Response 503 (Inr JNull)) (init ''key''))) =
     JNull \<and>
   sent (snd (get_app_list (\<lambda>url n. NetworkError)
           (snd (get_app_list (\<lambda>url n. Response 503 (Inr JNull)) (init ''key''))))) =
     [APP_LIST_URL, APP_LIST_URL]"
proof -
  have h1: "\<not> truthy (app_list_cache (init ''key''))"
    by (simp add: init_def)
  have h2: "transport_failure
              ((\<lambda>url n. Response 503 (Inr JNull)) APP_LIST_URL (length (sent (init ''key''))))"
    by (simp add: transport_failure_def raise_for_status_def)
  show ?thesis
    using get_app_list_transport_failure
      [where tr = "\<lambda>url n. Response 503 (Inr JNull)" and s = "init ''key''"
         and tr' = "\<lambda>url n. NetworkError", OF h1 h2]
    by (simp add: init_def)
qed

text \<open>
  C2: once the cache holds a non-empty sequence, no later call to \<open>get_app_list\<close>,
  directly or through \<open>find_app_id\<close>, sends a request or changes the cache: the call
  returns the cached value and the state as it was. So when the first fetch succeeds with
  a non-empty list, any number of calls after it leave exactly that one request sent and
  each returns the same list. And while every fetch so far has come back empty (a failure
  that is caught, or an empty list), each call has sent a request of its own, and the next
  call sends one more.
\<close>

theorem app_list_memoized:
  "(truthy (app_list_cache s) \<longrightarrow>
      get_app_list tr s = (Inr (app_list_cache s), s) \<and>
      sent (snd (find_app_id lower tr s g)) = sent s \<and>
      app_list_cache (snd (find_app_id lower tr s g)) = app_list_cache s) \<and>
   (\<not> truthy (app_list_cache s) \<and>
    tr APP_LIST_URL (length (sent s)) = Response status (Inr (app_list_body (JList xs))) \<and>
    \<not> raise_for_status status \<and> xs \<noteq> [] \<longrightarrow>
      fst (get_app_list_times tr (Suc n) s) = replicate (Suc n) (Inr (JList xs)) \<and>
      sent (snd (get_app_list_times tr (Suc n) s)) = sent s @ [APP_LIST_URL] \<and>
      app_list_cache (snd (get_app_list_times tr (Suc n) s)) = JList xs) \<and>
   (\<not> truthy (app_list_cache s) \<and>
    (\<forall>i<n. empty_fetch (tr APP_LIST_URL (length (sent s) + i))) \<longrightarrow>
      sent (snd (get_app_list_times tr n s)) = sent s @ replicate n APP_LIST_URL \<and>
      sent (snd (get_app_list tr (snd (get_app_list_times tr n s)))) =
        sent s @ replicate (Suc n) APP_LIST_URL)"
proof (intro conjI impI)
  assume "truthy (app_list_cache s)"
  then show "get_app_list tr s = (Inr (app_list_cache s), s)"
    and "sent (snd (find_app_id lower tr s g)) = sent s"
    and "app_list_cache (snd (find_app_id lower tr s g)) = app_list_cache s"
    by (simp_all add: get_app_list_cached find_app_id_cached)
next
  let ?s1 = "log_to INFO AppListRetrieved
               (s\<lparr>sent := sent s @ [APP_LIST_URL], app_list_cache := JList xs\<rparr>)"
  assume h: "\<not> truthy (app_list_cache s) \<and>
    tr APP_LIST_URL (length (sent s)) = Response status (Inr (app_list_body (JList xs))) \<and>
    \<not> raise_for_status status \<and> xs \<noteq> []"
  then have g: "get_app_list tr s = (Inr (JList xs), ?s1)"
    by (simp add: get_app_list_fetch_body)
  from h have c: "app_list_cache ?s1 = JList xs" "truthy (app_list_cache ?s1)"
    by (simp_all add: log_to_def)
  have t: "get_app_list_times tr (Suc n) s = (replicate (Suc n) (Inr (JList xs)), ?s1)"
    using get_app_list_times_cached [OF c(2), of tr n] g c(1) by simp
  show "fst (get_app_list_times tr (Suc n) s) = replicate (Suc n) (Inr (JList xs))"
    and "sent (snd (get_app_list_times tr (Suc n) s)) = sent s @ [APP_LIST_URL]"
    and "app_list_cache (snd (get_app_list_times tr (Suc n) s)) = JList xs"
    unfolding t by (simp_all add: log_to_def)
next
  assume h: "\<not> truthy (app_list_cache s) \<and>
    (\<forall>i<n. empty_fetch (tr APP_LIST_URL (length (sent s) + i)))"
  then have e: "\<not> truthy (app_list_cache (snd (get_app_list_times tr n s))) \<and>
      sent (snd (get_app_list_times tr n s)) = sent s @ replicate n APP_LIST_URL"
    using get_app_list_times_empty [of s n tr] by simp
  then show "sent (snd (get_app_list_times tr n s)) = sent s @ replicate n APP_LIST_URL"
    by simp
  from e show "sent (snd (get_app_list tr (snd (get_app_list_times tr n s)))) =
        sent s @ replicate (Suc n) APP_LIST_URL"
    by (simp add: get_app_list_sent replicate_append_same)
qed

theorem app_list_memoized_witness:
  "(get_app_list (\<lambda>url n. NetworkError) (fetched ''key'' (JList [JInt 1])) =
      (Inr (JList [JInt 1]), fetched ''key'' (JList [JInt 1])) \<and>
    sent (snd (find_app_id ascii_lower (\<lambda>url n. NetworkError) (fetched ''key'' (JList [JInt 1]))
                 (JStr ''Portal''))) = [APP_LIST_URL]) \<and>
   (fst (get_app_list_times (serving [\<lparr>appid = 10, name = ''Counter-Strike''\<rparr>]) (Suc 2)
           (init ''key'')) =
      replicate (Suc 2) (Inr (JList (map app_json [\<lparr>appid = 10, name = ''Counter-Strike''\<rparr>]))) \<and>
    sent (snd (get_app_list_times (serving [\<lparr>appid = 10, name = ''Counter-Strike''\<rparr>]) (Suc 2)
           (init ''key''))) = [APP_LIST_URL]) \<and>
   (sent (snd (get_app_list_times (\<lambda>url n. NetworkError) 2 (init ''key''))) =
      [APP_LIST_URL, APP_LIST_URL] \<and>
    sent (snd (get_app_list (\<lambda>url n. NetworkError)
                 (snd (get_app_list_times (\<lambda>url n. NetworkError) 2 (init ''key''))))) =
      [APP_LIST_URL, APP_LIST_URL, APP_LIST_URL])"
proof (intro conjI)
  have c: "truthy (app_list_cache (fetched ''key'' (JList [JInt 1])))"
    by (simp add: fetched_def)
  show "get_app_list (\<lambda>url n. NetworkError) (fetched ''key'' (JList [JInt 1])) =
      (Inr (JList [JInt 1]), fetched ''key'' (JList [JInt 1]))"
    and "sent (snd (find_app_id ascii_lower (\<lambda>url n. NetworkError)
                 (fetched ''key'' (JList [JInt 1])) (JStr ''Portal''))) = [APP_LIST_URL]"
    using c app_list_memoized
      [of "fetched ''key'' (JList [JInt 1])" "\<lambda>url n. NetworkError" ascii_lower "JStr ''Portal''"]
    by (simp_all add: fetched_def)
next
  let ?tr = "serving [\<lparr>appid = 10, name = ''Counter-Strike''\<rparr>]"
  have h: "\<not> truthy (app_list_cache (init ''key'')) \<and>
    ?tr APP_LIST_URL (length (sent (init ''key''))) =
      Response 200
        (Inr (app_list_body (JList (map app_json [\<lparr>appid = 10, name = ''Counter-Strike''\<rparr>])))) \<and>
    \<not> raise_for_status 200 \<and> map app_json [\<lparr>appid = 10, name = ''Counter-Strike''\<rparr>] \<noteq> []"
    by (simp add: init_def serving_def raise_for_status_def)
  show "fst (get_app_list_times ?tr (Suc 2) (init ''key'')) =
      replicate (Suc 2) (Inr (JList (map app_json [\<lparr>appid = 10, name = ''Counter-Strike''\<rparr>])))"
    and "sent (snd (get_app_list_times ?tr (Suc 2) (init ''key''))) = [APP_LIST_URL]"
    using h app_list_memoized
      [where s = "init ''key''" and tr = ?tr and status = 200 and n = 2
         and xs = "map app_json [\<lparr>appid = 10, name = ''Counter-Strike''\<rparr>]"]
    by (simp_all add: init_def)
next
  have h: "\<not> truthy (app_list_cache (init ''key'')) \<and>
    (\<forall>i<2. empty_fetch ((\<lambda>url n. NetworkError) APP_LIST_URL (length (sent (init ''key'')) + i)))"
    by (simp add: init_def empty_fetch_def)
  show "sent (snd (get_app_list_times (\<lambda>url n. NetworkError) 2 (init ''key''))) =
      [APP_LIST_URL, APP_LIST_URL]"
    and "sent (snd (get_app_list (\<lambda>url n. NetworkError)
                 (snd (get_app_list_times (\<lambda>url n. NetworkError) 2 (init ''key''))))) =
      [APP_LIST_URL, APP_LIST_URL, APP_LIST_URL]"
    using h app_list_memoized [where s = "init ''key''" and tr = "\<lambda>url n. NetworkError" and n = 2]
    by (simp_all add: init_def numeral_2_eq_2)
qed

section \<open>Looking a game up: find_app_id\<close>

text \<open>
  C8: for the empty string and for \<open>None\<close> as game name, \<open>find_app_id\<close> returns
  \<open>None\<close> at once and leaves the whole state as it was: no request is sent (the fetch
  of the app list is not started), the cache is unchanged and nothing is logged.
\<close>

theorem find_app_id_empty_name:
  "find_app_id lower tr s JNull = (Inr JNull, s) \<and>
   find_app_id lower tr s (JStr []) = (Inr JNull, s)"
  by (simp add: find_app_id_def)

theorem find_app_id_empty_name_witness:
  "find_app_id ascii_lower (\<lambda>url n. NetworkError) (init ''key'') JNull =
     (Inr JNull, init ''key'') \<and>
   find_app_id ascii_lower (\<lambda>url n. NetworkError) (init ''key'') (JStr '''') =
     (Inr JNull, init ''key'') \<and>
   sent (init ''key'') = []"
  using find_app_id_empty_name [of ascii_lower "\<lambda>url n. NetworkError" "init ''key''"]
  by (simp add: init_def)

text \<open>
  C3: for every non-empty game name and every app list that \<open>get_app_list\<close> hands
  over, \<open>find_app_id\<close> returns the app id of an entry whose name equals the game name
  after \<open>str.lower\<close> is applied to both, and \<open>None\<close> when the list has no such entry;
  this holds whatever \<open>str.lower\<close> does. When \<open>str.lower\<close> lowers ASCII strings as
  Python does, then with the list \<open>[{"appid": 10, "name": "Counter-Strike"}]\<close> the names
  \<open>counter-strike\<close> and \<open>COUNTER-STRIKE\<close> both give 10, and \<open>NoSuchGame\<close> gives
  \<open>None\<close>, as does \<open>Counter Strike\<close>, which differs from the entry in more than case.
\<close>

theorem find_app_id_case_insensitive:
  "(g \<noteq> [] \<and> get_app_list tr s = (Inr (JList (map app_json apps)), s1) \<longrightarrow>
      (\<exists>a \<in> set apps. lower (name a) = lower g \<and>
          fst (find_app_id lower tr s (JStr g)) = Inr (JInt (appid a))) \<or>
      ((\<forall>a \<in> set apps. lower (name a) \<noteq> lower g) \<and>
          fst (find_app_id lower tr s (JStr g)) = Inr JNull)) \<and>
   ((\<forall>x. is_ascii x \<longrightarrow> lower x = ascii_lower x) \<and>
    get_app_list tr s =
      (Inr (JList (map app_json [\<lparr>appid = 10, name = ''Counter-Strike''\<rparr>])), s1) \<longrightarrow>
      fst (find_app_id lower tr s (JStr ''counter-strike'')) = Inr (JInt 10) \<and>
      fst (find_app_id lower tr s (JStr ''COUNTER-STRIKE'')) = Inr (JInt 10) \<and>
      fst (find_app_id lower tr s (JStr ''NoSuchGame'')) = Inr JNull \<and>
      fst (find_app_id lower tr s (JStr ''Counter Strike'')) = Inr JNull)"
proof (intro conjI impI)
  assume h: "g \<noteq> [] \<and> get_app_list tr s = (Inr (JList (map app_json apps)), s1)"
  then have "fst (find_app_id lower tr s (JStr g)) =
      Inr (case map_of (rev (name_table lower apps)) (lower g) of None \<Rightarrow> JNull | Some v \<Rightarrow> v)"
    by (simp add: find_app_id_entries)
  with name_table_lookup [of lower apps "lower g"]
  show "(\<exists>a \<in> set apps. lower (name a) = lower g \<and>
          fst (find_app_id lower tr s (JStr g)) = Inr (JInt (appid a))) \<or>
      ((\<forall>a \<in> set apps. lower (name a) \<noteq> lower g) \<and>
          fst (find_app_id lower tr s (JStr g)) = Inr JNull)"
    by auto
next
  let ?apps = "[\<lparr>appid = 10, name = ''Counter-Strike''\<rparr>]"
  assume h: "(\<forall>x. is_ascii x \<longrightarrow> lower x = ascii_lower x) \<and>
    get_app_list tr s = (Inr (JList (map app_json ?apps)), s1)"
  have a: "is_ascii ''Counter-Strike''" "is_ascii ''counter-strike''"
    "is_ascii ''COUNTER-STRIKE''" "is_ascii ''NoSuchGame''" "is_ascii ''Counter Strike''"
    by (simp_all add: is_ascii_def)
  have l: "lower ''Counter-Strike'' = ''counter-strike''"
    "lower ''counter-strike'' = ''counter-strike''"
    "lower ''COUNTER-STRIKE'' = ''counter-strike''"
    "lower ''NoSuchGame'' = ''nosuchgame''"
    "lower ''Counter Strike'' = ''counter strike''"
    using h a by (simp_all add: ascii_lower_def ascii_lower_char_def)
  from h have e: "get_app_list tr s = (Inr (JList (map app_json ?apps)), s1)"
    by blast
  have f: "\<And>g. g \<noteq> [] \<Longrightarrow> fst (find_app_id lower tr s (JStr g)) =
      Inr (case map_of (rev (name_table lower ?apps)) (lower g) of
             None \<Rightarrow> JNull | Some v \<Rightarrow> v)"
    using e by (rule find_app_id_entries [rotated])
  show "fst (find_app_id lower tr s (JStr ''counter-strike'')) = Inr (JInt 10)"
    and "fst (find_app_id lower tr s (JStr ''COUNTER-STRIKE'')) = Inr (JInt 10)"
    and "fst (find_app_id lower tr s (JStr ''NoSuchGame'')) = Inr JNull"
    and "fst (find_app_id lower tr s (JStr ''Counter Strike'')) = Inr JNull"
    by (simp_all add: f l name_table_def)
qed

theorem find_app_id_case_insensitive_witness:
  "fst (find_app_id ascii_lower (serving [\<lparr>appid = 10, name = ''Counter-Strike''\<rparr>])
          (init ''key'') (JStr ''counter-strike'')) = Inr (JInt 10) \<and>
   fst (find_app_id ascii_lower (serving [\<lparr>appid = 10, name = ''Counter-Strike''\<rparr>])
          (init ''key'') (JStr ''COUNTER-STRIKE'')) = Inr (JInt 10) \<and>
   fst (find_app_id ascii_lower (serving [\<lparr>appid = 10, name = ''Counter-Strike''\<rparr>])
          (init ''key'') (JStr ''NoSuchGame'')) = Inr JNull \<and>
   fst (find_app_id ascii_lower (serving [\<lparr>appid = 10, name = ''Counter-Strike''\<rparr>])
          (init ''key'') (JStr ''Counter Strike'')) = Inr JNull \<and>
   ((\<exists>a \<in> set [\<lparr>appid = 10, name = ''Counter-Strike''\<rparr>].
        ascii_lower (name a) = ascii_lower ''CoUnTeR-sTrIkE'' \<and>
        fst (find_app_id ascii_lower (serving [\<lparr>appid = 10, name = ''Counter-Strike''\<rparr>])
               (init ''key'') (JStr ''CoUnTeR-sTrIkE'')) = Inr (JInt (appid a))) \<or>
    (\<forall>a \<in> set [\<lparr>appid = 10, name = ''Counter-Strike''\<rparr>].
        ascii_lower (name a) \<noteq> ascii_lower ''CoUnTeR-sTrIkE'') \<and>
        fst (find_app_id ascii_lower (serving [\<lparr>appid = 10, name = ''Counter-Strike''\<rparr>])
               (init ''key'') (JStr ''CoUnTeR-sTrIkE'')) = Inr JNull)"
proof -
  note f = get_app_list_serving [of "[\<lparr>appid = 10, name = ''Counter-Strike''\<rparr>]" "''key''"]
  have h1: "''CoUnTeR-sTrIkE'' \<noteq> [] \<and>
    get_app_list (serving [\<lparr>appid = 10, name = ''Counter-Strike''\<rparr>]) (init ''key'') =
      (Inr (JList (map app_json [\<lparr>appid = 10, name = ''Counter-Strike''\<rparr>])),
       fetched ''key'' (JList (map app_json [\<lparr>appid = 10, name = ''Counter-Strike''\<rparr>])))"
    using f by simp
  have h2: "(\<forall>x. is_ascii x \<longrightarrow> ascii_lower x = ascii_lower x) \<and>
    get_app_list (serving [\<lparr>appid = 10, name = ''Counter-Strike''\<rparr>]) (init ''key'') =
      (Inr (JList (map app_json [\<lparr>appid = 10, name = ''Counter-Strike''\<rparr>])),
       fetched ''key'' (JList (map app_json [\<lparr>appid = 10, name = ''Counter-Strike''\<rparr>])))"
    using f by simp
  show ?thesis
    using h1 h2 find_app_id_case_insensitive
      [where lower = ascii_lower and g = "''CoUnTeR-sTrIkE''"
         and tr = "serving [\<lparr>appid = 10, name = ''Counter-Strike''\<rparr>]" and s = "init ''key''"
         and apps = "[\<lparr>appid = 10, name = ''Counter-Strike''\<rparr>]"
         and ?s1.0 = "fetched ''key'' (JList (map app_json [\<lparr>appid = 10, name = ''Counter-Strike''\<rparr>]))"]
    by blast
qed

text \<open>
  The claim C7 as written says that \<open>find_app_id\<close> of the duplicated name returns the app
  id of the later entry. It fails when that name is the empty string: the dict does map
  it to the later app id, but the guard on the game name returns \<open>None\<close> before the dict
  is built.
\<close>

theorem find_app_id_last_duplicate_wins_counterexample:
  "fst (find_app_id ascii_lower (serving [\<lparr>appid = 10, name = ''''\<rparr>, \<lparr>appid = 30, name = ''''\<rparr>])
          (init ''key'') (JStr '''')) \<noteq> Inr (JInt 30)"
  by (simp add: find_app_id_def)

text \<open>
  C7 (amended): when the app list has two entries whose names are equal after lowercasing,
  the second with no entry of that name after it, the dict that \<open>find_app_id\<close> builds maps
  the lowercased name to the app id of the second entry, and \<open>find_app_id\<close> of that
  name, if it is not the empty string, returns that app id, in any case of its letters.
\<close>

theorem find_app_id_last_duplicate_wins:
  assumes "apps = xs @ [a1] @ ys @ [a2] @ zs"
    and "lower (name a1) = lower (name a2)"
    and "\<forall>b \<in> set zs. lower (name b) \<noteq> lower (name a2)"
    and "get_app_list tr s = (Inr (JList (map app_json apps)), s1)"
  shows "(\<exists>d. app_dict_of lower (JList (map app_json apps)) = Inr d \<and>
              d (lower (name a2)) = Some (JInt (appid a2))) \<and>
         (g \<noteq> [] \<and> lower g = lower (name a2) \<longrightarrow>
            fst (find_app_id lower tr s (JStr g)) = Inr (JInt (appid a2))) \<and>
         (name a2 \<noteq> [] \<longrightarrow>
            fst (find_app_id lower tr s (JStr (name a2))) = Inr (JInt (appid a2)))"
proof -
  let ?d = "map_of (rev (name_table lower apps))"
  have "apps = (xs @ [a1] @ ys) @ a2 # zs"
    using assms(1) by simp
  then have d: "?d (lower (name a2)) = Some (JInt (appid a2))"
    using name_table_last [OF assms(3), of "xs @ [a1] @ ys"] by simp
  have f: "\<And>g. g \<noteq> [] \<Longrightarrow> fst (find_app_id lower tr s (JStr g)) =
      Inr (case ?d (lower g) of None \<Rightarrow> JNull | Some v \<Rightarrow> v)"
    using assms(4) by (rule find_app_id_entries [rotated])
  from d f show ?thesis
    by (simp add: app_dict_of_entries)
qed

theorem find_app_id_last_duplicate_wins_witness:
  "(\<exists>d. app_dict_of ascii_lower (JList (map app_json
           [\<lparr>appid = 10, name = ''Counter-Strike''\<rparr>, \<lparr>appid = 20, name = ''Portal''\<rparr>,
            \<lparr>appid = 30, name = ''COUNTER-STRIKE''\<rparr>])) = Inr d \<and>
        d ''counter-strike'' = Some (JInt 30)) \<and>
   fst (find_app_id ascii_lower
          (serving [\<lparr>appid = 10, name = ''Counter-Strike''\<rparr>, \<lparr>appid = 20, name = ''Portal''\<rparr>,
                    \<lparr>appid = 30, name = ''COUNTER-STRIKE''\<rparr>])
          (init ''key'') (JStr ''Counter-strike'')) = Inr (JInt 30) \<and>
   fst (find_app_id ascii_lower
          (serving [\<lparr>appid = 10, name = ''Counter-Strike''\<rparr>, \<lparr>appid = 20, name = ''Portal''\<rparr>,
                    \<lparr>appid = 30, name = ''COUNTER-STRIKE''\<rparr>])
          (init ''key'') (JStr ''COUNTER-STRIKE'')) = Inr (JInt 30)"
proof -
  have l: "ascii_lower ''Counter-Strike'' = ''counter-strike''"
    "ascii_lower ''COUNTER-STRIKE'' = ''counter-strike''"
    "ascii_lower ''Counter-strike'' = ''counter-strike''"
    by (simp_all add: ascii_lower_def ascii_lower_char_def)
  show ?thesis
    using find_app_id_last_duplicate_wins
      [where lower = ascii_lower
         and xs = "[]" and ys = "[\<lparr>appid = 20, name = ''Portal''\<rparr>]" and zs = "[]"
         and ?a1.0 = "\<lparr>appid = 10, name = ''Counter-Strike''\<rparr>"
         and ?a2.0 = "\<lparr>appid = 30, name = ''COUNTER-STRIKE''\<rparr>"
         and g = "''Counter-strike''",
       OF refl _ _ get_app_list_serving]
    by (simp add: l)
qed

text \<open>
  The claim C9 as written says that \<open>find_app_id\<close> returns 0 whenever the entry that the
  lowercased query selects has the app id 0, and that the value returned always equals the
  result of the lookup. It fails for the empty query and an entry with the empty name: the
  guard returns \<open>None\<close> and no lookup takes place.
\<close>

theorem find_app_id_zero_app_id_counterexample:
  "fst (find_app_id ascii_lower (serving [\<lparr>appid = 0, name = ''''\<rparr>]) (init ''key'') (JStr ''''))
     \<noteq> Inr (JInt 0)"
  by (simp add: find_app_id_def)

text \<open>
  C9 (amended): for every non-empty game name, the value \<open>find_app_id\<close> returns is the
  result of the lookup in the dict: the app id of the last entry whose lowercased name
  equals the lowercased game name, or \<open>None\<close>. So when that entry has the app id 0,
  \<open>find_app_id\<close> returns the integer 0, not \<open>None\<close>, although the truth value of 0
  makes it log the warning for a game that was not found.
\<close>

theorem find_app_id_zero_app_id:
  assumes "g \<noteq> []"
    and "get_app_list tr s = (Inr (JList (map app_json apps)), s1)"
  shows "fst (find_app_id lower tr s (JStr g)) =
           Inr (case map_of (rev (name_table lower apps)) (lower g) of
                  None \<Rightarrow> JNull | Some v \<Rightarrow> v) \<and>
         (apps = xs @ [a] @ ys \<and> lower (name a) = lower g \<and> appid a = 0 \<and>
          (\<forall>b \<in> set ys. lower (name b) \<noteq> lower (name a)) \<longrightarrow>
            find_app_id lower tr s (JStr g) =
              (Inr (JInt 0), log_to WARNING (AppIdNotFound (JStr g)) s1))"
proof (intro conjI impI)
  let ?d = "map_of (rev (name_table lower apps))"
  note f = find_app_id_lookup [where lower = lower and tr = tr and s = s,
      OF assms app_dict_of_entries]
  show "fst (find_app_id lower tr s (JStr g)) =
      Inr (case ?d (lower g) of None \<Rightarrow> JNull | Some v \<Rightarrow> v)"
    by (simp add: f)
  assume h: "apps = xs @ [a] @ ys \<and> lower (name a) = lower g \<and> appid a = 0 \<and>
          (\<forall>b \<in> set ys. lower (name b) \<noteq> lower (name a))"
  then have a: "apps = xs @ a # ys" and l: "lower (name a) = lower g" and z: "appid a = 0"
    and n: "\<forall>b \<in> set ys. lower (name b) \<noteq> lower (name a)"
    by (simp, blast+)
  have "?d (lower (name a)) = Some (JInt (appid a))"
    unfolding a using n by (rule name_table_last)
  then have "?d (lower g) = Some (JInt 0)"
    by (simp add: l z)
  then show "find_app_id lower tr s (JStr g) =
      (Inr (JInt 0), log_to WARNING (AppIdNotFound (JStr g)) s1)"
    by (simp add: f)
qed

theorem find_app_id_zero_app_id_witness:
  "fst (find_app_id ascii_lower
          (serving [\<lparr>appid = 0, name = ''Zero''\<rparr>, \<lparr>appid = 7, name = ''Seven''\<rparr>])
          (init ''key'') (JStr ''SEVEN'')) = Inr (JInt 7) \<and>
   fst (find_app_id ascii_lower
          (serving [\<lparr>appid = 0, name = ''Zero''\<rparr>, \<lparr>appid = 7, name = ''Seven''\<rparr>])
          (init ''key'') (JStr ''Eight'')) = Inr JNull \<and>
   find_app_id ascii_lower
     (serving [\<lparr>appid = 0, name = ''Zero''\<rparr>, \<lparr>appid = 7, name = ''Seven''\<rparr>])
     (init ''key'') (JStr ''ZERO'') =
     (Inr (JInt 0),
      log_to WARNING (AppIdNotFound (JStr ''ZERO''))
        (fetched ''key'' (JList (map app_json
           [\<lparr>appid = 0, name = ''Zero''\<rparr>, \<lparr>appid = 7, name = ''Seven''\<rparr>]))))"
proof -
  let ?apps = "[\<lparr>appid = 0, name = ''Zero''\<rparr>, \<lparr>appid = 7, name = ''Seven''\<rparr>]"
  have l: "ascii_lower ''Zero'' = ''zero''" "ascii_lower ''ZERO'' = ''zero''"
    "ascii_lower ''Seven'' = ''seven''" "ascii_lower ''SEVEN'' = ''seven''"
    "ascii_lower ''Eight'' = ''eight''"
    by (simp_all add: ascii_lower_def ascii_lower_char_def)
  note f = get_app_list_serving [of ?apps "''key''"]
  have n: "''SEVEN'' \<noteq> []" "''Eight'' \<noteq> []" "''ZERO'' \<noteq> []"
    by simp_all
  show ?thesis
    using find_app_id_zero_app_id [where lower = ascii_lower, OF n(1) f]
      find_app_id_zero_app_id [where lower = ascii_lower, OF n(2) f]
      find_app_id_zero_app_id [where lower = ascii_lower and xs = "[]"
        and a = "\<lparr>appid = 0, name = ''Zero''\<rparr>" and ys = "[\<lparr>appid = 7, name = ''Seven''\<rparr>]",
        OF n(3) f]
    by (simp add: l name_table_def)
qed

section \<open>Exceptions that reach the caller\<close>

text \<open>
  The claim C1 as written: whatever the transport does, the three methods return a value,
  and a successful response with a malformed body is reported as absence. It fails: the
  methods catch \<open>requests.RequestException\<close> only, so the \<open>KeyError\<close> of a parsed
  body, or of an entry of the app list, that lacks an expected field leaves each of them,
  and so does an exception of \<open>response.json()\<close> that is not a \<open>RequestException\<close>.
\<close>

theorem no_exception_counterexample:
  "fst (get_steam_id (\<lambda>url n. Response 200 (Inr (JObj []))) (init ''key'') ''gabe'') =
     Inl KeyError \<and>
   fst (get_app_list (\<lambda>url n. Response 200 (Inr (JObj []))) (init ''key'')) = Inl KeyError \<and>
   fst (find_app_id ascii_lower
          (\<lambda>url n. Response 200 (Inr (app_list_body (JList [JObj [(''appid'', JInt 10)]]))))
          (init ''key'') (JStr ''Portal'')) = Inl KeyError \<and>
   fst (get_steam_id (\<lambda>url n. Response 200 (Inl ValueError)) (init ''key'') ''gabe'') =
     Inl ValueError"
  by (simp add: get_steam_id_def get_app_list_def find_app_id_def request_json_def
      raise_for_status_def init_def Let_def app_list_body_def app_dict_of_def)

text \<open>
  C1 (amended): each of the three methods returns a value and raises nothing when the
  request fails with a \<open>RequestException\<close> (a network error, a status from 400 to 599,
  or \<open>response.json()\<close> raising the \<open>JSONDecodeError\<close> of \<open>requests\<close> on a body that
  is not JSON) and when the response is successful and parses to a value of the expected
  shape. For \<open>get_steam_id\<close> the shape is a dict whose \<open>response\<close> is a dict; for
  \<open>get_app_list\<close>, a dict whose \<open>applist\<close> is a dict with the key \<open>apps\<close> (a cache
  that is already set needs no response); for \<open>find_app_id\<close>, called with \<open>None\<close> or a
  string, the apps, fetched or cached, are moreover a list of dicts that each have a
  string under \<open>name\<close> and a value under \<open>appid\<close>. The failures are reported as
  absence: \<open>None\<close> from \<open>get_steam_id\<close> and \<open>find_app_id\<close>, the empty list from
  \<open>get_app_list\<close>; and so is a successful response whose \<open>response\<close> has no
  \<open>steamid\<close>.
\<close>

theorem no_exception_on_expected_shape:
  "(reply_ok steam_id_shape (tr (steam_id_url (api_key s) username) (length (sent s))) \<longrightarrow>
      (\<exists>v. fst (get_steam_id tr s username) = Inr v)) \<and>
   (reply_ok no_steam_id (tr (steam_id_url (api_key s) username) (length (sent s))) \<longrightarrow>
      fst (get_steam_id tr s username) = Inr JNull) \<and>
   (truthy (app_list_cache s) \<or> reply_ok app_list_shape (tr APP_LIST_URL (length (sent s))) \<longrightarrow>
      (\<exists>v. fst (get_app_list tr s) = Inr v)) \<and>
   (\<not> truthy (app_list_cache s) \<and> caught_failure (tr APP_LIST_URL (length (sent s))) \<longrightarrow>
      fst (get_app_list tr s) = Inr (JList [])) \<and>
   ((g = JNull \<or> is_str g) \<and>
    (if truthy (app_list_cache s) then apps_ok (app_list_cache s)
     else reply_ok app_entries_shape (tr APP_LIST_URL (length (sent s)))) \<longrightarrow>
      (\<exists>v. fst (find_app_id lower tr s g) = Inr v)) \<and>
   (is_str g \<and> \<not> truthy (app_list_cache s) \<and>
    caught_failure (tr APP_LIST_URL (length (sent s))) \<longrightarrow>
      fst (find_app_id lower tr s g) = Inr JNull)"
proof (intro conjI impI)
  assume "reply_ok steam_id_shape (tr (steam_id_url (api_key s) username) (length (sent s)))"
  then show "\<exists>v. fst (get_steam_id tr s username) = Inr v"
    by (rule get_steam_id_total)
next
  assume "reply_ok no_steam_id (tr (steam_id_url (api_key s) username) (length (sent s)))"
  then show "fst (get_steam_id tr s username) = Inr JNull"
  proof (cases rule: reply_ok_cases)
    case 1
    then show ?thesis by (rule get_steam_id_failure)
  next
    case (2 status body)
    then show ?thesis by (rule get_steam_id_absent)
  qed
next
  assume "truthy (app_list_cache s) \<or>
    reply_ok app_list_shape (tr APP_LIST_URL (length (sent s)))"
  then show "\<exists>v. fst (get_app_list tr s) = Inr v"
    by (rule get_app_list_total)
next
  assume "\<not> truthy (app_list_cache s) \<and> caught_failure (tr APP_LIST_URL (length (sent s)))"
  then show "fst (get_app_list tr s) = Inr (JList [])"
    by (simp add: get_app_list_failure)
next
  assume "(g = JNull \<or> is_str g) \<and>
    (if truthy (app_list_cache s) then apps_ok (app_list_cache s)
     else reply_ok app_entries_shape (tr APP_LIST_URL (length (sent s))))"
  then show "\<exists>v. fst (find_app_id lower tr s g) = Inr v"
    using find_app_id_total [of g s tr lower] by blast
next
  assume "is_str g \<and> \<not> truthy (app_list_cache s) \<and>
    caught_failure (tr APP_LIST_URL (length (sent s)))"
  then show "fst (find_app_id lower tr s g) = Inr JNull"
    using find_app_id_failure [of g s tr lower] by blast
qed

theorem no_exception_on_expected_shape_witness:
  "fst (get_steam_id (\<lambda>url n. Response 200 (Inl RequestException)) (init ''key'') ''gabe'') =
     Inr JNull \<and>
   fst (get_steam_id
          (\<lambda>url n. Response 200 (Inr (JObj [(''response'', JObj [(''success'', JInt 42)])])))
          (init ''key'') ''gabe'') = Inr JNull \<and>
   fst (get_app_list (\<lambda>url n. Response 200 (Inl RequestException)) (init ''key'')) =
     Inr (JList []) \<and>
   fst (find_app_id ascii_lower (\<lambda>url n. Response 200 (Inl RequestException)) (init ''key'')
          (JStr ''Portal'')) = Inr JNull \<and>
   (\<exists>v. fst (get_app_list (serving [\<lparr>appid = 10, name = ''Counter-Strike''\<rparr>])
            (init ''key'')) = Inr v) \<and>
   (\<exists>v. fst (find_app_id ascii_lower (serving [\<lparr>appid = 10, name = ''Counter-Strike''\<rparr>])
            (init ''key'') (JStr ''Portal'')) = Inr v)"
proof -
  let ?bad = "\<lambda>(url::string) (n::nat). Response 200 (Inl RequestException)"
  let ?none = "\<lambda>(url::string) (n::nat).
    Response 200 (Inr (JObj [(''response'', JObj [(''success'', JInt 42)])]))"
  let ?tr = "serving [\<lparr>appid = 10, name = ''Counter-Strike''\<rparr>]"
  let ?s = "init ''key''"
  have c: "\<not> truthy (app_list_cache ?s)"
    by (simp add: init_def)
  have b: "caught_failure (?bad APP_LIST_URL (length (sent ?s)))"
    "reply_ok no_steam_id (?bad (steam_id_url (api_key ?s) ''gabe'') (length (sent ?s)))"
    by (simp_all add: caught_failure_def reply_ok_def)
  have n: "reply_ok no_steam_id (?none (steam_id_url (api_key ?s) ''gabe'') (length (sent ?s)))"
    by (simp add: reply_ok_def no_steam_id_def has_field_def raise_for_status_def)
  have t: "reply_ok app_list_shape (?tr APP_LIST_URL (length (sent ?s)))"
    "reply_ok app_entries_shape (?tr APP_LIST_URL (length (sent ?s)))"
    by (simp_all add: reply_ok_def app_list_shape_def app_entries_shape_def has_field_def
        serving_def app_list_body_def app_entry_ok_def app_json_def raise_for_status_def)
  have g: "is_str (JStr ''Portal'')"
    by simp
  from b c g
    no_exception_on_expected_shape
      [where tr = ?bad and s = ?s and username = "''gabe''" and g = "JStr ''Portal''"
         and lower = ascii_lower]
  have 1: "fst (get_steam_id ?bad ?s ''gabe'') = Inr JNull"
    and 2: "fst (get_app_list ?bad ?s) = Inr (JList [])"
    and 3: "fst (find_app_id ascii_lower ?bad ?s (JStr ''Portal'')) = Inr JNull"
    by blast+
  from n no_exception_on_expected_shape [where tr = ?none and s = ?s and username = "''gabe''"]
  have 4: "fst (get_steam_id ?none ?s ''gabe'') = Inr JNull"
    by blast
  from t c g
    no_exception_on_expected_shape
      [where tr = ?tr and s = ?s and g = "JStr ''Portal''" and lower = ascii_lower]
  have 5: "\<exists>v. fst (get_app_list ?tr ?s) = Inr v"
    and 6: "\<exists>v. fst (find_app_id ascii_lower ?tr ?s (JStr ''Portal'')) = Inr v"
    by presburger+
  from 1 2 3 4 5 6 show ?thesis by blast
qed

end
